theory Spec2Isabelle
  imports Complex_Main "HOL-Library.Word" "HOL-Library.Monad_Syntax"
begin

section \<open>AxleWatch transmitter: constants and data\<close>

text \<open>
  The embedding follows \<^verbatim>\<open>AxleWatch-TX-main.cpp\<close>. The preprocessor constants keep
  their names. A \<^verbatim>\<open>float\<close> temperature is modelled by the rational number it denotes
  (every finite binary32 value is a rational; the bus driver never delivers NaN or an
  infinity), and the one operation on temperatures, the difference of a reading and its
  baseline, is taken exactly: probe readings are multiples of \<open>1 / 128\<close> in a range where
  binary32 subtraction does not round. A \<^verbatim>\<open>DeviceAddress\<close> is its eight bytes.
\<close>

type_synonym u8 = "8 word"
type_synonym DeviceAddress = "u8 list"
type_synonym temperature = rat

definition MAX_SENSOR_COUNT :: nat where
  "MAX_SENSOR_COUNT = 10"

definition TEMP_CHANGE_THRESHOLD :: rat where
  "TEMP_CHANGE_THRESHOLD = 3 / 2"

definition TRANSMIT_INTERVAL_MS :: nat where
  "TRANSMIT_INTERVAL_MS = 30000"

definition BUTTON_SAVE_PRESS_MS :: nat where
  "BUTTON_SAVE_PRESS_MS = 5000"

definition PACKET_SIZE :: nat where
  "PACKET_SIZE = 256"

section \<open>Text rendering of \<^verbatim>\<open>printf\<close> conversions\<close>

definition digit :: "nat \<Rightarrow> char" where
  "digit d = ''0123456789'' ! d"

text \<open>\<^verbatim>\<open>%d\<close> of a non-negative integer.\<close>

function dec :: "nat \<Rightarrow> string" where
  "dec n = (if n < 10 then [digit n] else dec (n div 10) @ [digit (n mod 10)])"
  by pat_completeness auto
termination
  by (relation "measure id") auto

declare dec.simps [simp del]

text \<open>
  \<^verbatim>\<open>%.1f\<close>: the value is rounded to the nearest tenth, a tie going to the even
  neighbour (the conversion rounds the exact binary value), then written as sign,
  integer digits, a point and one digit. A negative value that rounds to zero keeps its
  sign, as in C.
\<close>

definition round_half_even :: "rat \<Rightarrow> int" where
  "round_half_even x =
     (let f = \<lfloor>x\<rfloor>; r = x - of_int f
      in if r < 1 / 2 then f
         else if 1 / 2 < r then f + 1
         else if even f then f else f + 1)"

definition fmt_1f :: "temperature \<Rightarrow> string" where
  "fmt_1f x =
     (let n = nat (round_half_even (\<bar>x\<bar> * 10))
      in (if x < 0 then ''-'' else '''') @ dec (n div 10) @ ''.'' @ [digit (n mod 10)])"

section \<open>The telemetry packet (\<^verbatim>\<open>readAndTransmitData\<close>, lines 694 to 711)\<close>

text \<open>
  \<^verbatim>\<open>snprintf(packet + offset, sizeof(packet) - offset, ...)\<close> on the 256-byte array
  \<^verbatim>\<open>packet\<close>. The first component is the C string the array holds, the second the running
  \<^verbatim>\<open>offset\<close>; \<^verbatim>\<open>snprintf\<close> stores at most \<open>size - 1\<close> characters and returns the length
  of the whole text. Once \<^verbatim>\<open>offset\<close> has passed 256 the unsigned size wraps around and the
  call writes outside the array: that is \<open>None\<close>.
\<close>

definition snprintf_at :: "string \<Rightarrow> nat \<Rightarrow> string \<Rightarrow> (string \<times> nat) option" where
  "snprintf_at packet offset s =
     (if PACKET_SIZE < offset then None
      else if offset = PACKET_SIZE then Some (packet, offset + length s)
      else Some (take offset packet @ take (PACKET_SIZE - offset - 1) s, offset + length s))"

text \<open>\<^verbatim>\<open>for (int i = 1; i < activeSensorCount; i++)\<close>: one \<^verbatim>\<open>"%.1f,"\<close> per index.\<close>

fun put_temps :: "temperature list \<Rightarrow> nat list \<Rightarrow> string \<times> nat \<Rightarrow> (string \<times> nat) option" where
  "put_temps temps [] st = Some st"
| "put_temps temps (i # is) (packet, offset) =
     (if i < length temps
      then snprintf_at packet offset (fmt_1f (temps ! i) @ '','') \<bind> put_temps temps is
      else None)"

text \<open>\<^verbatim>\<open>for (int i = activeSensorCount; i < MAX_SENSOR_COUNT; i++)\<close>: one \<^verbatim>\<open>"0.0,"\<close> each.\<close>

fun put_zeros :: "nat list \<Rightarrow> string \<times> nat \<Rightarrow> (string \<times> nat) option" where
  "put_zeros [] st = Some st"
| "put_zeros (i # is) (packet, offset) = snprintf_at packet offset ''0.0,'' \<bind> put_zeros is"

definition encodePacket :: "nat \<Rightarrow> nat \<Rightarrow> temperature list \<Rightarrow> string option" where
  "encodePacket tid ac temps =
     do {
       st0 \<leftarrow> snprintf_at [] 0 (''TX'' @ dec tid @ '':'');
       st1 \<leftarrow> put_temps temps [1..<ac] st0;
       st2 \<leftarrow> put_zeros [ac..<MAX_SENSOR_COUNT] st1;
       if 0 < length temps
       then map_option fst (snprintf_at (fst st2) (snd st2) (fmt_1f (temps ! 0)))
       else None
     }"

text \<open>
  In \<open>encodePacket\<close>, \<open>tid\<close> is \<^verbatim>\<open>transmitterID\<close>, \<open>ac\<close> is \<^verbatim>\<open>activeSensorCount\<close> and \<open>temps\<close> is
  \<^verbatim>\<open>latestData.temps\<close>. Next, the line the four format statements spell out when
  nothing is cut off.
\<close>

definition packet_text :: "nat \<Rightarrow> nat \<Rightarrow> temperature list \<Rightarrow> string" where
  "packet_text tid ac temps =
     ''TX'' @ dec tid @ '':''
       @ concat (map (\<lambda>i. fmt_1f (temps ! i) @ '','') [1..<ac])
       @ concat (map (\<lambda>i. ''0.0,'') [ac..<MAX_SENSOR_COUNT])
       @ fmt_1f (temps ! 0)"






section \<open>Global state and the persisted record\<close>

text \<open>
  The globals of lines 83 to 116 that the modelled functions read or write.
  \<open>sensorConfig\<close> is \<^verbatim>\<open>SensorConfig.sensors\<close>, ten rows of eight bytes;
  \<open>latestTemps\<close>, \<open>latestTimestamp\<close> and \<open>latestValid\<close> are the fields of
  \<^verbatim>\<open>latestData\<close>; \<open>totalPackets\<close> and \<open>lastPacketTime\<close> those of \<^verbatim>\<open>loraStats\<close>.
\<close>

record globals =
  sensorConfig :: "DeviceAddress list"
  sensorsConfigured :: bool
  lastTransmitTime :: nat
  activeSensorCount :: nat
  transmitterID :: nat
  powerSaveMode :: bool
  latestTemps :: "temperature list"
  latestTimestamp :: nat
  latestValid :: bool
  totalPackets :: nat
  lastPacketTime :: nat

text \<open>The static initialisers: the state in which \<^verbatim>\<open>setup()\<close> starts after every reset.\<close>

definition initial_globals :: globals where
  "initial_globals =
     \<lparr>sensorConfig = replicate 10 (replicate 8 0),
      sensorsConfigured = False,
      lastTransmitTime = 0,
      activeSensorCount = 1,
      transmitterID = 1,
      powerSaveMode = False,
      latestTemps = replicate 10 0,
      latestTimestamp = 0,
      latestValid = False,
      totalPackets = 0,
      lastPacketTime = 0\<rparr>"

definition EEPROM_MAGIC :: nat where
  "EEPROM_MAGIC = 0xABCD"

definition EEPROM_MAGIC_ADDR :: nat where
  "EEPROM_MAGIC_ADDR = 0"

definition EEPROM_SENSOR_ADDR :: nat where
  "EEPROM_SENSOR_ADDR = 4"

definition EEPROM_SENSOR_COUNT_ADDR :: nat where
  "EEPROM_SENSOR_COUNT_ADDR = 84"

text \<open>
  The byte store behind \<^verbatim>\<open>EEPROM\<close>: \<^verbatim>\<open>put\<close> and \<^verbatim>\<open>get\<close> work on a buffer in memory,
  \<^verbatim>\<open>commit\<close> copies the buffer to flash, \<^verbatim>\<open>begin\<close> (line 163, at every start) fills the
  buffer from flash. All modelled accesses lie below \<^verbatim>\<open>EEPROM_SIZE\<close>.
\<close>

record eeprom =
  ram :: "nat \<Rightarrow> u8"
  flash :: "nat \<Rightarrow> u8"

definition EEPROM_put :: "nat \<Rightarrow> u8 list \<Rightarrow> eeprom \<Rightarrow> eeprom" where
  "EEPROM_put address bytes e =
     e\<lparr>ram := (\<lambda>i. if address \<le> i \<and> i < address + length bytes
                    then bytes ! (i - address) else ram e i)\<rparr>"

definition EEPROM_get :: "nat \<Rightarrow> nat \<Rightarrow> eeprom \<Rightarrow> u8 list" where
  "EEPROM_get address n e = map (ram e) [address..<address + n]"

definition EEPROM_commit :: "eeprom \<Rightarrow> eeprom" where
  "EEPROM_commit e = e\<lparr>flash := ram e\<rparr>"

definition EEPROM_begin :: "eeprom \<Rightarrow> eeprom" where
  "EEPROM_begin e = e\<lparr>ram := flash e\<rparr>"

text \<open>A store that was never written: every byte of erased flash is \<open>0xFF\<close>.\<close>

definition erased_eeprom :: eeprom where
  "erased_eeprom = \<lparr>ram = (\<lambda>i. 0xFF), flash = (\<lambda>i. 0xFF)\<rparr>"

text \<open>A \<^verbatim>\<open>uint16_t\<close> in memory, low byte first.\<close>

definition u16_bytes :: "nat \<Rightarrow> u8 list" where
  "u16_bytes v = [of_nat (v mod 256), of_nat (v div 256)]"

definition bytes_u16 :: "u8 list \<Rightarrow> nat" where
  "bytes_u16 bs = unat (bs ! 0) + 256 * unat (bs ! 1)"

text \<open>
  \<^verbatim>\<open>validateUniqueConfig\<close> (lines 594 to 604): the nested loops return \<^verbatim>\<open>false\<close> at the
  first pair of equal rows among the first \<open>activeSensorCount\<close>; \<^verbatim>\<open>memcmp\<close> over the
  eight bytes of two rows is equality of the rows.
\<close>

definition validateUniqueConfig :: "globals \<Rightarrow> bool" where
  "validateUniqueConfig g =
     list_all (\<lambda>i. list_all (\<lambda>j. sensorConfig g ! i \<noteq> sensorConfig g ! j)
                        [i + 1..<activeSensorCount g])
       [0..<activeSensorCount g]"

text \<open>\<^verbatim>\<open>isDuplicateSensor\<close> (lines 582 to 589).\<close>

definition isDuplicateSensor :: "globals \<Rightarrow> DeviceAddress \<Rightarrow> nat \<Rightarrow> bool" where
  "isDuplicateSensor g newAddr excludeIndex =
     list_ex (\<lambda>i. newAddr = sensorConfig g ! i) [0..<min excludeIndex (activeSensorCount g)]"

text \<open>\<^verbatim>\<open>saveSensorConfig\<close> (lines 609 to 624).\<close>

definition saveSensorConfig :: "globals \<Rightarrow> eeprom \<Rightarrow> eeprom" where
  "saveSensorConfig g e =
     EEPROM_commit
       (EEPROM_put EEPROM_SENSOR_COUNT_ADDR [of_nat (activeSensorCount g)]
         (EEPROM_put EEPROM_SENSOR_ADDR (concat (sensorConfig g))
           (EEPROM_put EEPROM_MAGIC_ADDR (u16_bytes EEPROM_MAGIC) e)))"

text \<open>
  \<^verbatim>\<open>loadSensorConfig\<close> (lines 629 to 671). The function returns nothing; what it reports
  on the serial line and the LED is the first component: \<open>NoValidConfig\<close> for
  "No valid configuration found", \<open>InvalidCount\<close> for "Invalid sensor count",
  \<open>DuplicateWarning\<close> for "Loaded configuration contains duplicate sensors" with five red
  blinks, \<open>ConfigValidated\<close> for "Configuration validated".
\<close>

datatype load_report = NoValidConfig | InvalidCount | DuplicateWarning | ConfigValidated

definition loadSensorConfig :: "eeprom \<Rightarrow> globals \<Rightarrow> load_report \<times> globals" where
  "loadSensorConfig e g =
     (if bytes_u16 (EEPROM_get EEPROM_MAGIC_ADDR 2 e) = EEPROM_MAGIC then
        let g1 = g\<lparr>sensorConfig :=
                      map (\<lambda>k. EEPROM_get (EEPROM_SENSOR_ADDR + 8 * k) 8 e) [0..<MAX_SENSOR_COUNT],
                    activeSensorCount := unat (hd (EEPROM_get EEPROM_SENSOR_COUNT_ADDR 1 e))\<rparr>
        in if activeSensorCount g1 < 1 \<or> MAX_SENSOR_COUNT < activeSensorCount g1
           then (InvalidCount, g1\<lparr>activeSensorCount := 1, sensorsConfigured := False\<rparr>)
           else if \<not> validateUniqueConfig g1
           then (DuplicateWarning, g1\<lparr>sensorsConfigured := False\<rparr>)
           else (ConfigValidated, g1\<lparr>sensorsConfigured := True\<rparr>)
      else (NoValidConfig, g\<lparr>sensorsConfigured := False\<rparr>))"

text \<open>
  The start of \<^verbatim>\<open>setup()\<close> (lines 163 and 191), the only caller of
  \<^verbatim>\<open>loadSensorConfig\<close>: the store is opened and the record is loaded into the freshly
  initialised globals.
\<close>

definition boot_load :: "eeprom \<Rightarrow> load_report \<times> globals" where
  "boot_load e = loadSensorConfig (EEPROM_begin e) initial_globals"

text \<open>
  The fields of the record held in flash (section 6 of the specification): magic marker,
  slot table and active count.
\<close>

definition stored_magic :: "eeprom \<Rightarrow> nat" where
  "stored_magic e = bytes_u16 [flash e EEPROM_MAGIC_ADDR, flash e (EEPROM_MAGIC_ADDR + 1)]"

definition stored_table :: "eeprom \<Rightarrow> DeviceAddress list" where
  "stored_table e =
     map (\<lambda>k. map (flash e) [EEPROM_SENSOR_ADDR + 8 * k..<EEPROM_SENSOR_ADDR + 8 * k + 8])
       [0..<MAX_SENSOR_COUNT]"

definition stored_count :: "eeprom \<Rightarrow> nat" where
  "stored_count e = unat (flash e EEPROM_SENSOR_COUNT_ADDR)"

text \<open>The shape of \<^verbatim>\<open>sensorConfig\<close> that its C type fixes: ten rows of eight bytes.\<close>

definition wf_config :: "globals \<Rightarrow> bool" where
  "wf_config g =
     (length (sensorConfig g) = MAX_SENSOR_COUNT \<and> list_all (\<lambda>a. length a = 8) (sensorConfig g))"

text \<open>Sample data: two probe addresses, a configuration using them, and two stored records.\<close>

definition probe_A :: DeviceAddress where
  "probe_A = [0x28, 0xFF, 0x64, 0x1E, 0x0F, 0x5A, 0x2B, 0x9C]"

definition probe_B :: DeviceAddress where
  "probe_B = [0x28, 0xFF, 0x10, 0x2D, 0x0F, 0x5A, 0x33, 0x41]"

definition two_probe_config :: globals where
  "two_probe_config =
     initial_globals\<lparr>sensorConfig := [probe_A, probe_B] @ replicate 8 (replicate 8 0),
                      activeSensorCount := 2\<rparr>"

definition duplicate_record :: eeprom where
  "duplicate_record =
     EEPROM_commit
       (EEPROM_put EEPROM_SENSOR_COUNT_ADDR [2]
         (EEPROM_put EEPROM_MAGIC_ADDR (u16_bytes EEPROM_MAGIC) erased_eeprom))"

definition zero_count_record :: eeprom where
  "zero_count_record =
     EEPROM_commit
       (EEPROM_put EEPROM_SENSOR_COUNT_ADDR [0]
         (EEPROM_put EEPROM_MAGIC_ADDR (u16_bytes EEPROM_MAGIC) erased_eeprom))"

section \<open>The bus, the button and the clock\<close>

text \<open>
  What the program observes of its surroundings. \<open>devices\<close> are the addresses the bus
  driver enumerates (\<^verbatim>\<open>getDeviceCount\<close>, \<^verbatim>\<open>getAddress\<close>); \<open>tempC w t a\<close> is what
  \<^verbatim>\<open>getTempC(a)\<close> returns for a conversion that \<^verbatim>\<open>requestTemperatures()\<close> completed at
  time \<open>t\<close>; \<open>buttonLow w t\<close> says that \<^verbatim>\<open>digitalRead(BUTTON_PIN)\<close> is \<^verbatim>\<open>LOW\<close> at time
  \<open>t\<close>; \<open>convMs\<close> is how long \<^verbatim>\<open>requestTemperatures()\<close> blocks. Times are values of
  \<^verbatim>\<open>millis()\<close>; the program only ever subtracts an earlier reading from a later one,
  which unsigned arithmetic gets right across a wrap-around, so the clock is a natural
  number. A tone of \<open>d\<close> milliseconds, \<^verbatim>\<open>blinkLED(pin, n, d)\<close> and \<^verbatim>\<open>delay(d)\<close>
  advance the clock by \<open>d\<close>, \<open>2 * n * d\<close> and \<open>d\<close>.
\<close>

record world =
  devices :: "DeviceAddress list"
  tempC :: "nat \<Rightarrow> DeviceAddress \<Rightarrow> temperature"
  buttonLow :: "nat \<Rightarrow> bool"
  convMs :: nat

section \<open>\<^verbatim>\<open>findSensorByTouch\<close> (lines 552 to 577)\<close>

text \<open>
  One sampling pass, the \<^verbatim>\<open>for\<close> loop over \<open>i < count\<close>. \<^verbatim>\<open>abs\<close> is applied to a
  \<^verbatim>\<open>float\<close> and yields its magnitude. The arrays are passed as pointers; an index beyond
  what the caller allocated reads outside them, which is \<open>OutOfBounds\<close>.
\<close>

datatype scan = Touched nat temperature | Untouched | OutOfBounds

fun scan_touch ::
  "world \<Rightarrow> nat \<Rightarrow> DeviceAddress list \<Rightarrow> temperature list \<Rightarrow> nat list \<Rightarrow> scan" where
  "scan_touch w t allSensors baselines [] = Untouched"
| "scan_touch w t allSensors baselines (i # is) =
     (if i < length allSensors \<and> i < length baselines then
        let currentTemp = tempC w t (allSensors ! i);
            change = \<bar>currentTemp - baselines ! i\<bar>
        in if TEMP_CHANGE_THRESHOLD < change then Touched i currentTemp
           else scan_touch w t allSensors baselines is
      else OutOfBounds)"

text \<open>
  The \<^verbatim>\<open>while\<close> loop. The result is the returned index (\<open>- 1\<close> on timeout), the updated
  baselines and the clock at return; \<open>None\<close> stands for the read outside the arrays.
\<close>

function touch_loop ::
  "world \<Rightarrow> DeviceAddress list \<Rightarrow> temperature list \<Rightarrow> nat \<Rightarrow> nat \<Rightarrow> nat
     \<Rightarrow> (int \<times> temperature list \<times> nat) option" where
  "touch_loop w allSensors baselines count startTime now =
     (if now - startTime < 30000 then
        (case scan_touch w (now + convMs w) allSensors baselines [0..<count] of
           Touched i currentTemp \<Rightarrow>
             Some (int i, baselines[i := currentTemp], now + convMs w)
         | Untouched \<Rightarrow>
             touch_loop w allSensors baselines count startTime (now + convMs w + 500)
         | OutOfBounds \<Rightarrow> None)
      else Some (- 1, baselines, now))"
  by pat_completeness auto
termination
  by (relation "measure (\<lambda>(w, allSensors, baselines, count, startTime, now).
                            startTime + 30000 - now)") auto

declare touch_loop.simps [simp del]

definition findSensorByTouch ::
  "world \<Rightarrow> DeviceAddress list \<Rightarrow> temperature list \<Rightarrow> nat \<Rightarrow> nat
     \<Rightarrow> (int \<times> temperature list \<times> nat) option" where
  "findSensorByTouch w allSensors baselines count now =
     touch_loop w allSensors baselines count now now"

text \<open>The time at which pass \<open>k\<close> of a call entered at \<open>now\<close> reads the sensors.\<close>

definition pass_time :: "world \<Rightarrow> nat \<Rightarrow> nat \<Rightarrow> nat" where
  "pass_time w now k = now + k * (convMs w + 500) + convMs w"

text \<open>Candidate \<open>i\<close> has moved more than the threshold away from its baseline.\<close>

definition deviates :: "world \<Rightarrow> nat \<Rightarrow> DeviceAddress list \<Rightarrow> temperature list \<Rightarrow> nat \<Rightarrow> bool" where
  "deviates w t allSensors baselines i =
     (TEMP_CHANGE_THRESHOLD < \<bar>tempC w t (allSensors ! i) - baselines ! i\<bar>)"

section \<open>\<^verbatim>\<open>scanAndIdentifySensors\<close> (lines 328 to 547)\<close>

text \<open>
  The state of a setup run: the globals, the local array \<^verbatim>\<open>baselines\<close>, the clock and
  the local \<^verbatim>\<open>waitStart\<close> of the position being assigned.
\<close>

record setup_state =
  glob :: globals
  baselines :: "temperature list"
  clock :: nat
  waitStart :: nat

text \<open>
  The body of the candidate loop (lines 455 to 497) for candidate \<open>i\<close> while position
  \<open>pos\<close> is being assigned, with the readings of the conversion completed at \<open>t\<close>. The
  boolean is \<^verbatim>\<open>sensorFound\<close>. A touched candidate that \<^verbatim>\<open>isDuplicateSensor\<close> accepts as
  already assigned is refused: error feedback (4200 ms in all), its baseline refreshed,
  \<^verbatim>\<open>waitStart\<close> set to the clock, and \<^verbatim>\<open>continue\<close>. Any other touched candidate is
  copied into slot \<open>pos\<close>, the count incremented (a \<^verbatim>\<open>uint8_t\<close>), and the loop left.
\<close>

definition touch_candidate ::
  "world \<Rightarrow> DeviceAddress list \<Rightarrow> nat \<Rightarrow> nat \<Rightarrow> nat \<Rightarrow> setup_state \<Rightarrow> bool \<times> setup_state" where
  "touch_candidate w allSensors pos t i s =
     (let currentTemp = tempC w t (allSensors ! i);
          change = \<bar>currentTemp - baselines s ! i\<bar>
      in if TEMP_CHANGE_THRESHOLD < change then
           if isDuplicateSensor (glob s) (allSensors ! i) pos then
             (False, s\<lparr>baselines := (baselines s)[i := currentTemp],
                       clock := clock s + 4200,
                       waitStart := clock s + 4200\<rparr>)
           else
             (True, s\<lparr>glob := (glob s)
                         \<lparr>sensorConfig := (sensorConfig (glob s))[pos := allSensors ! i],
                          activeSensorCount := (activeSensorCount (glob s) + 1) mod 256\<rparr>,
                      baselines := (baselines s)[i := currentTemp],
                      clock := clock s + 1800\<rparr>)
         else (False, s))"

text \<open>\<^verbatim>\<open>for (int i = 0; i < deviceCount && i < 16; i++)\<close> over the candidates.\<close>

fun scan_candidates ::
  "world \<Rightarrow> DeviceAddress list \<Rightarrow> nat \<Rightarrow> nat \<Rightarrow> nat list \<Rightarrow> setup_state \<Rightarrow> bool \<times> setup_state" where
  "scan_candidates w allSensors pos t [] s = (False, s)"
| "scan_candidates w allSensors pos t (i # is) s =
     (let (sensorFound, s') = touch_candidate w allSensors pos t i s
      in if sensorFound then (True, s') else scan_candidates w allSensors pos t is s')"

text \<open>
  The inner button loop (lines 430 to 445): polls every 10 ms while the button stays
  low, and reports \<^verbatim>\<open>buttonPressed\<close> once it has been low for more than
  \<^verbatim>\<open>BUTTON_SAVE_PRESS_MS\<close>.
\<close>

function hold_button :: "world \<Rightarrow> nat \<Rightarrow> nat \<Rightarrow> bool \<times> nat" where
  "hold_button w pressStart now =
     (if buttonLow w now \<and> now - pressStart < BUTTON_SAVE_PRESS_MS + 500 then
        if BUTTON_SAVE_PRESS_MS < now - pressStart then (True, now)
        else hold_button w pressStart (now + 10)
      else (False, now))"
  by pat_completeness auto
termination
  by (relation "measure (\<lambda>(w, pressStart, now). pressStart + BUTTON_SAVE_PRESS_MS + 500 - now)")
    auto

declare hold_button.simps [simp del]

text \<open>
  The wait window of one position (lines 424 to 505). Each refused duplicate moves
  \<^verbatim>\<open>waitStart\<close> forward, so the loop need not end: \<open>None\<close> is the run that never leaves
  it.
\<close>

datatype wait_event = SaveHeld | SensorAssigned | WindowElapsed

partial_function (option) wait_for_touch ::
  "world \<Rightarrow> DeviceAddress list \<Rightarrow> nat \<Rightarrow> setup_state \<Rightarrow> (wait_event \<times> setup_state) option" where
  "wait_for_touch w allSensors pos s =
     (if clock s - waitStart s < 60000 then
        let (buttonPressed, t) =
              (if buttonLow w (clock s) then hold_button w (clock s) (clock s)
               else (False, clock s))
        in if buttonPressed then Some (SaveHeld, s\<lparr>clock := t\<rparr>)
           else
             let (sensorFound, s') =
                   scan_candidates w allSensors pos (t + convMs w) [0..<length allSensors]
                     (s\<lparr>clock := t + convMs w\<rparr>)
             in if sensorFound then Some (SensorAssigned, s')
                else wait_for_touch w allSensors pos (s'\<lparr>clock := clock s' + 500\<rparr>)
      else Some (WindowElapsed, s))"

text \<open>
  \<^verbatim>\<open>for (int pos = 1; pos < MAX_SENSOR_COUNT; pos++)\<close> (lines 405 to 522): \<open>pos\<close> beeps,
  then the wait window; the loop goes on to the next position only after an assignment.
\<close>

function assign_positions ::
  "world \<Rightarrow> DeviceAddress list \<Rightarrow> nat \<Rightarrow> setup_state \<Rightarrow> setup_state option" where
  "assign_positions w allSensors pos s =
     (if pos < MAX_SENSOR_COUNT then
        (case wait_for_touch w allSensors pos
                (s\<lparr>clock := clock s + pos * 200 + 500, waitStart := clock s + pos * 200 + 500\<rparr>) of
           None \<Rightarrow> None
         | Some (event, s') \<Rightarrow>
             if event = SensorAssigned then assign_positions w allSensors (pos + 1) s'
             else Some s')
      else Some s)"
  by pat_completeness auto
termination
  by (relation "measure (\<lambda>(w, allSensors, pos, s). MAX_SENSOR_COUNT - pos)") auto

declare assign_positions.simps [simp del]

text \<open>
  The whole function. The outcome names the exit taken: \<open>NoSensorsFound\<close> (line 338),
  \<open>AmbientRequired\<close> (line 395), \<open>DuplicatesDetected\<close> (line 530) and \<open>SetupComplete\<close>
  (line 546). The result carries the store, the globals and the clock at return.
\<close>

datatype setup_outcome = NoSensorsFound | AmbientRequired | DuplicatesDetected | SetupComplete

definition scanAndIdentifySensors ::
  "world \<Rightarrow> eeprom \<Rightarrow> globals \<Rightarrow> nat \<Rightarrow> (setup_outcome \<times> eeprom \<times> globals \<times> nat) option" where
  "scanAndIdentifySensors w e g now =
     (let deviceCount = length (devices w) in
      if deviceCount < 1 then Some (NoSensorsFound, e, g, now + 5000)
      else
        let allSensors = take 16 (devices w);
            t0 = now + convMs w;
            baselines0 = map (tempC w t0) allSensors;
            g1 = g\<lparr>activeSensorCount := 0\<rparr>
        in case findSensorByTouch w allSensors baselines0 deviceCount (t0 + 1650) of
             None \<Rightarrow> None
           | Some (identifiedSensor, baselines1, t1) \<Rightarrow>
               if 0 \<le> identifiedSensor then
                 let g2 = g1\<lparr>sensorConfig :=
                                (sensorConfig g1)[0 := allSensors ! nat identifiedSensor],
                              activeSensorCount := 1\<rparr>
                 in case assign_positions w allSensors 1
                           \<lparr>glob = g2, baselines = baselines1, clock = t1 + 1800, waitStart = 0\<rparr> of
                      None \<Rightarrow> None
                    | Some s3 \<Rightarrow>
                        if \<not> validateUniqueConfig (glob s3)
                        then Some (DuplicatesDetected, e, glob s3, clock s3 + 5000)
                        else Some (SetupComplete, saveSensorConfig (glob s3) e,
                                   (glob s3)\<lparr>sensorsConfigured := True\<rparr>, clock s3 + 2600)
               else Some (AmbientRequired, e, g1, t1 + 5000))"

section \<open>Periodic transmission (\<^verbatim>\<open>readAndTransmitData\<close> and \<^verbatim>\<open>loop\<close>)\<close>

text \<open>
  Lines 681 to 736: the sensors of the first \<open>activeSensorCount\<close> slots are read into
  \<^verbatim>\<open>latestData.temps\<close>, the packet is encoded and sent, the statistics are updated. The
  first component is the text handed to the radio.
\<close>

definition read_sensors :: "world \<Rightarrow> nat \<Rightarrow> globals \<Rightarrow> temperature list" where
  "read_sensors w t g =
     fold (\<lambda>i temps. temps[i := tempC w t (sensorConfig g ! i)])
       [0..<activeSensorCount g] (latestTemps g)"

definition readAndTransmitData :: "world \<Rightarrow> globals \<Rightarrow> nat \<Rightarrow> string option \<times> globals" where
  "readAndTransmitData w g now =
     (let t = now + convMs w;
          temps = read_sensors w t g
      in (encodePacket (transmitterID g) (activeSensorCount g) temps,
          g\<lparr>latestTemps := temps,
            latestTimestamp := t div 1000,
            latestValid := True,
            totalPackets := totalPackets g + 1,
            lastPacketTime := t\<rparr>))"

text \<open>
  The transmission step of \<^verbatim>\<open>loop()\<close> (lines 241 to 251): nothing is sent (\<open>None\<close>)
  unless the device is configured and the interval has passed.
\<close>

definition loop_transmit :: "world \<Rightarrow> globals \<Rightarrow> nat \<Rightarrow> (string option \<times> globals) option" where
  "loop_transmit w g now =
     (if sensorsConfigured g \<and> TRANSMIT_INTERVAL_MS \<le> now - lastTransmitTime g then
        let (packet, g') = readAndTransmitData w g now
        in Some (packet, g'\<lparr>lastTransmitTime := now + convMs w\<rparr>)
      else None)"

section \<open>Auxiliary notions and sample surroundings\<close>

text \<open>
  The effect of an accepted touch on the globals (lines 481 and 488): the address is
  copied into slot \<open>pos\<close> and the count is incremented.
\<close>

definition assign_slot :: "globals \<Rightarrow> nat \<Rightarrow> DeviceAddress \<Rightarrow> globals" where
  "assign_slot g pos a =
     g\<lparr>sensorConfig := (sensorConfig g)[pos := a],
       activeSensorCount := (activeSensorCount g + 1) mod 256\<rparr>"

text \<open>
  Three probes on the bus, the button never pressed, a conversion taking 750 ms. In
  \<open>quiet_world\<close> every probe reads 20.0 at all times; in \<open>touched_world\<close> the second probe
  reads 22.0.
\<close>

definition probe_C :: DeviceAddress where
  "probe_C = [0x28, 0xFF, 0x7A, 0x31, 0x0F, 0x5A, 0x40, 0xE2]"

definition quiet_world :: world where
  "quiet_world =
     \<lparr>devices = [probe_A, probe_B, probe_C],
      tempC = (\<lambda>t a. 20),
      buttonLow = (\<lambda>t. False),
      convMs = 750\<rparr>"


text \<open>A device that has been set up with two probes and saved.\<close>

definition configured_device :: globals where
  "configured_device = two_probe_config\<lparr>sensorsConfigured := True\<rparr>"

definition configured_store :: eeprom where
  "configured_store = saveSensorConfig two_probe_config erased_eeprom"

text \<open>
  A setup session at the same bench: the second probe is warmed to 22.0 three seconds
  after the start, the third probe to 25.0 after six seconds and to 28.0 after nine.
\<close>

definition bench_world :: world where
  "bench_world =
     \<lparr>devices = [probe_A, probe_B, probe_C],
      tempC = (\<lambda>t a. if a = probe_B then (if t < 3000 then 20 else 22)
                      else if a = probe_C
                      then (if t < 6000 then 20 else if t < 9000 then 25 else 28)
                      else 20),
      buttonLow = (\<lambda>t. False),
      convMs = 750\<rparr>"

definition bench_result :: globals where
  "bench_result =
     initial_globals\<lparr>sensorConfig := (sensorConfig initial_globals)[0 := probe_B, 1 := probe_C],
                      activeSensorCount := 2,
                      sensorsConfigured := True\<rparr>"


section \<open>Rendering lemmas\<close>

























lemma floor_numeral_div:
  "\<lfloor>numeral a / numeral b :: rat\<rfloor> = numeral a div numeral b"
  using floor_divide_of_int_eq [of "numeral a" "numeral b", where ?'a = rat] by simp

lemmas render_simps = fmt_1f_def round_half_even_def Let_def floor_numeral_div dec.simps digit_def
lemmas encode_simps = encodePacket_def snprintf_at_def PACKET_SIZE_def MAX_SENSOR_COUNT_def upt_conv_Cons

text \<open>
  Readings of magnitude below \<open>10 ^ 19\<close>, which includes every temperature a probe can
  report, always fit the buffer.
\<close>

lemma length_dec:
  "n < 10 ^ k \<Longrightarrow> 0 < k \<Longrightarrow> length (dec n) \<le> k"
proof (induction n arbitrary: k rule: dec.induct)
  case (1 n)
  show ?case
  proof (cases "n < 10")
    case True
    with "1.prems" show ?thesis by (subst dec.simps) simp
  next
    case False
    with "1.prems" have k2: "1 < k"
      by (cases "k = 1") auto
    then obtain k' where k': "k = Suc k'" "0 < k'" by (cases k) auto
    have "n div 10 < 10 ^ k'"
      using "1.prems"(1) k' by (simp add: less_mult_imp_div_less mult.commute)
    from "1.IH" [OF False this k'(2)] False k' show ?thesis
      by (subst dec.simps) simp
  qed
qed

lemma round_half_even_le: "round_half_even x \<le> \<lfloor>x\<rfloor> + 1"
  by (simp add: round_half_even_def Let_def)

lemma round_half_even_ge: "\<lfloor>x\<rfloor> \<le> round_half_even x"
  by (simp add: round_half_even_def Let_def)

lemma length_fmt_1f:
  assumes "\<bar>x\<bar> < 10 ^ 19"
  shows "length (fmt_1f x) \<le> 23"
proof -
  define n where "n = nat (round_half_even (\<bar>x\<bar> * 10))"
  have "\<bar>x\<bar> * 10 < 10 ^ 20" using assms by simp
  then have "\<lfloor>\<bar>x\<bar> * 10\<rfloor> < 10 ^ 20"
    by (simp add: floor_less_iff)
  then have "round_half_even (\<bar>x\<bar> * 10) \<le> 10 ^ 20"
    using round_half_even_le [of "\<bar>x\<bar> * 10"] by linarith
  then have "n \<le> 10 ^ 20" by (simp add: n_def nat_le_iff)
  then have "n div 10 < 10 ^ 20" by simp
  then have "length (dec (n div 10)) \<le> 20" by (rule length_dec) simp
  then show ?thesis
    by (simp add: fmt_1f_def Let_def n_def [symmetric])
qed

lemma length_concat_le:
  "\<forall>x\<in>set xs. length (f x) \<le> m \<Longrightarrow> length (concat (map f xs)) \<le> m * length xs"
  by (induction xs) (auto simp: add_le_mono)

lemma packet_text_fits:
  assumes tid: "tid < 65536" and ac: "ac \<le> 10" and len: "length temps = 10"
    and mag: "\<forall>x\<in>set temps. \<bar>x\<bar> < 10 ^ 19"
  shows "length (packet_text tid ac temps) < PACKET_SIZE"
proof -
  have hd: "length (dec tid) \<le> 5"
    using tid by (intro length_dec) simp_all
  have field: "length (fmt_1f (temps ! i)) \<le> 23" if "i < 10" for i
    using mag len that by (intro length_fmt_1f) (simp add: nth_mem)
  have pos: "length (concat (map (\<lambda>i. fmt_1f (temps ! i) @ '','') [1..<ac])) \<le> 24 * length [1..<ac]"
    using ac field by (intro length_concat_le) auto
  have zer: "length (concat (map (\<lambda>i. ''0.0,'') [ac..<MAX_SENSOR_COUNT]))
               \<le> 4 * length [ac..<MAX_SENSOR_COUNT]"
    by (intro length_concat_le) simp
  have "length (packet_text tid ac temps)
          \<le> 3 + 5 + 24 * (ac - 1) + 4 * (10 - ac) + 23"
    using hd pos zer field [of 0]
    by (simp add: packet_text_def MAX_SENSOR_COUNT_def)
  also have "\<dots> < 256" using ac by simp
  finally show ?thesis by (simp add: PACKET_SIZE_def)
qed

section \<open>Claims about the telemetry encoder\<close>

text \<open>
  Claim C2. With three active sensors, ambient reading 25.1, position readings 12.3 and
  18.0 and transmitter identity 7, the encoder produces exactly the line
  \<^verbatim>\<open>TX7:12.3,18.0,0.0,0.0,0.0,0.0,0.0,0.0,0.0,25.1\<close>: the positions first, in order, the
  ambient value last and no trailing comma. The seven readings beyond the active count are
  arbitrary.
\<close>

theorem C2_encode_example:
  "encodePacket 7 3 [251 / 10, 123 / 10, 18, t3, t4, t5, t6, t7, t8, t9]
     = Some ''TX7:12.3,18.0,0.0,0.0,0.0,0.0,0.0,0.0,0.0,25.1''"
  by (simp add: encode_simps render_simps)

text \<open>
  The binary32 values nearest to 25.1 and 12.3 are not the decimal fractions themselves;
  they render to the same text.
\<close>

lemma fmt_1f_binary32_examples:
  "fmt_1f (13159629 / 2 ^ 19) = ''25.1''"
  "fmt_1f (12897485 / 2 ^ 20) = ''12.3''"
  by (simp_all add: render_simps)





section \<open>The persisted record: lemmas\<close>

lemma concat_nth_rows:
  "\<forall>r\<in>set rows. length r = n \<Longrightarrow> k < length rows \<Longrightarrow> j < n \<Longrightarrow>
   concat rows ! (n * k + j) = rows ! k ! j"
proof (induction rows arbitrary: k)
  case Nil
  then show ?case by simp
next
  case (Cons r rows)
  show ?case
  proof (cases k)
    case 0
    with Cons.prems show ?thesis by (simp add: nth_append)
  next
    case (Suc k')
    with Cons.prems have "concat rows ! (n * k' + j) = rows ! k' ! j"
      by (intro Cons.IH) auto
    with Cons.prems Suc show ?thesis
      by (simp add: nth_append add.assoc)
  qed
qed

lemma length_concat_rows:
  "\<forall>r\<in>set rows. length r = n \<Longrightarrow> length (concat rows) = n * length rows"
  by (induction rows) auto

lemma ram_EEPROM_put:
  "ram (EEPROM_put a bs e) i = (if a \<le> i \<and> i < a + length bs then bs ! (i - a) else ram e i)"
  by (simp add: EEPROM_put_def)

lemma EEPROM_begin_commit: "EEPROM_begin (EEPROM_commit e) = EEPROM_commit e"
  by (simp add: EEPROM_begin_def EEPROM_commit_def)

lemma ram_EEPROM_commit: "ram (EEPROM_commit e) = ram e"
  by (simp add: EEPROM_commit_def)

lemma validateUniqueConfig_iff:
  "validateUniqueConfig g \<longleftrightarrow>
     (\<forall>i j. i < j \<and> j < activeSensorCount g \<longrightarrow> sensorConfig g ! i \<noteq> sensorConfig g ! j)"
  by (auto simp: validateUniqueConfig_def list_all_iff)

lemma validateUniqueConfig_distinct:
  assumes "activeSensorCount g \<le> length (sensorConfig g)"
  shows "validateUniqueConfig g \<longleftrightarrow> distinct (take (activeSensorCount g) (sensorConfig g))"
proof
  assume v: "validateUniqueConfig g"
  show "distinct (take (activeSensorCount g) (sensorConfig g))"
    unfolding distinct_conv_nth
  proof (intro allI impI)
    fix i j
    assume i: "i < length (take (activeSensorCount g) (sensorConfig g))"
      and j: "j < length (take (activeSensorCount g) (sensorConfig g))" and ne: "i \<noteq> j"
    from ne consider "i < j" | "j < i" by linarith
    then show "take (activeSensorCount g) (sensorConfig g) ! i
                 \<noteq> take (activeSensorCount g) (sensorConfig g) ! j"
    proof cases
      case 1
      with v i j show ?thesis by (simp add: validateUniqueConfig_iff)
    next
      case 2
      with v i j have "sensorConfig g ! j \<noteq> sensorConfig g ! i"
        by (simp add: validateUniqueConfig_iff)
      with i j show ?thesis by simp
    qed
  qed
next
  assume d: "distinct (take (activeSensorCount g) (sensorConfig g))"
  show "validateUniqueConfig g"
    unfolding validateUniqueConfig_iff
  proof (intro allI impI)
    fix i j
    assume ij: "i < j \<and> j < activeSensorCount g"
    with assms have "take (activeSensorCount g) (sensorConfig g) ! i
                       \<noteq> take (activeSensorCount g) (sensorConfig g) ! j"
      using d by (simp add: distinct_conv_nth)
    with ij show "sensorConfig g ! i \<noteq> sensorConfig g ! j" by simp
  qed
qed


lemma saved_magic:
  "bytes_u16 (EEPROM_get EEPROM_MAGIC_ADDR 2 (EEPROM_begin (saveSensorConfig g e))) = EEPROM_MAGIC"
  by (simp add: saveSensorConfig_def EEPROM_begin_commit ram_EEPROM_commit EEPROM_get_def
      ram_EEPROM_put bytes_u16_def u16_bytes_def EEPROM_MAGIC_def EEPROM_MAGIC_ADDR_def
      EEPROM_SENSOR_ADDR_def EEPROM_SENSOR_COUNT_ADDR_def upt_conv_Cons)

lemma saved_count:
  assumes "activeSensorCount g < 256"
  shows "unat (hd (EEPROM_get EEPROM_SENSOR_COUNT_ADDR 1 (EEPROM_begin (saveSensorConfig g e))))
           = activeSensorCount g"
proof -
  have "unat (of_nat (activeSensorCount g) :: u8) = activeSensorCount g"
    using assms by (simp add: unat_of_nat)
  then show ?thesis
    by (simp add: saveSensorConfig_def EEPROM_begin_commit ram_EEPROM_commit EEPROM_get_def
        ram_EEPROM_put EEPROM_SENSOR_COUNT_ADDR_def upt_conv_Cons)
qed

lemma saved_row:
  assumes wf: "wf_config g" and k: "k < MAX_SENSOR_COUNT"
  shows "EEPROM_get (EEPROM_SENSOR_ADDR + 8 * k) 8 (EEPROM_begin (saveSensorConfig g e))
           = sensorConfig g ! k"
proof (rule nth_equalityI)
  have rows: "\<forall>r\<in>set (sensorConfig g). length r = 8"
    using wf by (simp add: wf_config_def list_all_iff)
  have len: "length (sensorConfig g) = 10"
    using wf by (simp add: wf_config_def MAX_SENSOR_COUNT_def)
  have k10: "k < 10" using k by (simp add: MAX_SENSOR_COUNT_def)
  have rowk: "length (sensorConfig g ! k) = 8"
    using rows len k10 by simp
  show "length (EEPROM_get (EEPROM_SENSOR_ADDR + 8 * k) 8 (EEPROM_begin (saveSensorConfig g e)))
          = length (sensorConfig g ! k)"
    by (simp add: EEPROM_get_def rowk)
  fix j
  assume "j < length (EEPROM_get (EEPROM_SENSOR_ADDR + 8 * k) 8 (EEPROM_begin (saveSensorConfig g e)))"
  then have j: "j < 8" by (simp add: EEPROM_get_def)
  have inside: "8 * k + j < 80" using k10 j by simp
  have "EEPROM_get (EEPROM_SENSOR_ADDR + 8 * k) 8 (EEPROM_begin (saveSensorConfig g e)) ! j
          = concat (sensorConfig g) ! (8 * k + j)"
    using j inside length_concat_rows [OF rows] len
    by (simp add: saveSensorConfig_def EEPROM_begin_commit ram_EEPROM_commit EEPROM_get_def
        ram_EEPROM_put EEPROM_SENSOR_ADDR_def EEPROM_SENSOR_COUNT_ADDR_def add.assoc)
  also have "\<dots> = sensorConfig g ! k ! j"
    using rows len k10 j by (intro concat_nth_rows) simp_all
  finally show "EEPROM_get (EEPROM_SENSOR_ADDR + 8 * k) 8 (EEPROM_begin (saveSensorConfig g e)) ! j
                  = sensorConfig g ! k ! j" .
qed

lemma saved_table:
  assumes wf: "wf_config g"
  shows "map (\<lambda>k. EEPROM_get (EEPROM_SENSOR_ADDR + 8 * k) 8 (EEPROM_begin (saveSensorConfig g e)))
           [0..<MAX_SENSOR_COUNT] = sensorConfig g"
proof (rule nth_equalityI)
  show "length (map (\<lambda>k. EEPROM_get (EEPROM_SENSOR_ADDR + 8 * k) 8 (EEPROM_begin (saveSensorConfig g e)))
           [0..<MAX_SENSOR_COUNT]) = length (sensorConfig g)"
    using wf by (simp add: wf_config_def)
  fix k
  assume "k < length (map (\<lambda>k. EEPROM_get (EEPROM_SENSOR_ADDR + 8 * k) 8
                                   (EEPROM_begin (saveSensorConfig g e))) [0..<MAX_SENSOR_COUNT])"
  then have k: "k < MAX_SENSOR_COUNT" by simp
  then show "map (\<lambda>k. EEPROM_get (EEPROM_SENSOR_ADDR + 8 * k) 8 (EEPROM_begin (saveSensorConfig g e)))
           [0..<MAX_SENSOR_COUNT] ! k = sensorConfig g ! k"
    using saved_row [OF wf k] by simp
qed

section \<open>Claims about the persisted record\<close>

text \<open>
  Claim C3. Persistence round trip: for every configuration whose active count is between 1
  and 10 and whose first \<open>activeSensorCount\<close> slot addresses are pairwise distinct, saving
  it and then loading (after a restart, into any globals \<open>g0\<close>) yields exactly the saved
  slot table and active count and marks the device configured.
\<close>

theorem C3_persistence_round_trip:
  assumes "1 \<le> activeSensorCount g" and "activeSensorCount g \<le> 10"
    and "wf_config g"
    and "distinct (take (activeSensorCount g) (sensorConfig g))"
  shows "loadSensorConfig (EEPROM_begin (saveSensorConfig g e)) g0
           = (ConfigValidated,
              g0\<lparr>sensorConfig := sensorConfig g,
                  activeSensorCount := activeSensorCount g,
                  sensorsConfigured := True\<rparr>)"
proof -
  let ?g1 = "g0\<lparr>sensorConfig := sensorConfig g, activeSensorCount := activeSensorCount g\<rparr>"
  have cnt: "unat (hd (EEPROM_get EEPROM_SENSOR_COUNT_ADDR 1 (EEPROM_begin (saveSensorConfig g e))))
               = activeSensorCount g"
    using assms(2) by (intro saved_count) simp
  have "activeSensorCount ?g1 \<le> length (sensorConfig ?g1)"
    using assms(2,3) by (simp add: wf_config_def MAX_SENSOR_COUNT_def)
  then have "validateUniqueConfig ?g1"
    using assms(4) by (simp add: validateUniqueConfig_distinct)
  then show ?thesis
    unfolding loadSensorConfig_def saved_magic saved_table [OF assms(3)] cnt Let_def
    using assms(1,2) by (simp add: MAX_SENSOR_COUNT_def)
qed


lemma EEPROM_get_begin:
  "EEPROM_get a n (EEPROM_begin e) = map (flash e) [a..<a + n]"
  by (simp add: EEPROM_get_def EEPROM_begin_def)

lemma loaded_magic:
  "bytes_u16 (EEPROM_get EEPROM_MAGIC_ADDR 2 (EEPROM_begin e)) = stored_magic e"
  by (simp add: EEPROM_get_begin stored_magic_def bytes_u16_def EEPROM_MAGIC_ADDR_def upt_conv_Cons)

lemma loaded_count:
  "unat (hd (EEPROM_get EEPROM_SENSOR_COUNT_ADDR 1 (EEPROM_begin e))) = stored_count e"
  by (simp add: EEPROM_get_begin stored_count_def upt_conv_Cons)

lemma loaded_table:
  "map (\<lambda>k. EEPROM_get (EEPROM_SENSOR_ADDR + 8 * k) 8 (EEPROM_begin e)) [0..<MAX_SENSOR_COUNT]
     = stored_table e"
  by (simp add: EEPROM_get_begin stored_table_def)

lemma boot_load_eq:
  "boot_load e =
     (if stored_magic e = EEPROM_MAGIC then
        if stored_count e < 1 \<or> MAX_SENSOR_COUNT < stored_count e
        then (InvalidCount,
              initial_globals\<lparr>sensorConfig := stored_table e, activeSensorCount := 1,
                               sensorsConfigured := False\<rparr>)
        else if \<not> validateUniqueConfig
                    (initial_globals\<lparr>sensorConfig := stored_table e,
                                     activeSensorCount := stored_count e\<rparr>)
        then (DuplicateWarning,
              initial_globals\<lparr>sensorConfig := stored_table e, activeSensorCount := stored_count e,
                               sensorsConfigured := False\<rparr>)
        else (ConfigValidated,
              initial_globals\<lparr>sensorConfig := stored_table e, activeSensorCount := stored_count e,
                               sensorsConfigured := True\<rparr>)
      else (NoValidConfig, initial_globals\<lparr>sensorsConfigured := False\<rparr>))"
  unfolding boot_load_def loadSensorConfig_def loaded_magic loaded_count loaded_table Let_def
  by simp

lemma length_stored_table: "length (stored_table e) = MAX_SENSOR_COUNT"
  by (simp add: stored_table_def)

text \<open>
  Outside the two validated branches the function leaves \<open>activeSensorCount\<close> alone; the
  value 1 after a magic mismatch is the one the initialiser gave it.
\<close>

lemma loadSensorConfig_no_magic:
  "bytes_u16 (EEPROM_get EEPROM_MAGIC_ADDR 2 e) \<noteq> EEPROM_MAGIC \<Longrightarrow>
   loadSensorConfig e g = (NoValidConfig, g\<lparr>sensorsConfigured := False\<rparr>)"
  by (simp add: loadSensorConfig_def)

text \<open>
  Claim C4. For every persisted record whose magic marker differs from the known constant,
  or whose stored active count is 0 or greater than 10, loading at start-up yields the safe
  default (active count 1, device marked unconfigured) and reports it as unconfigured
  (no valid configuration, or invalid count).
\<close>

theorem C4_untrusted_record_fallback:
  assumes "stored_magic e \<noteq> EEPROM_MAGIC \<or> stored_count e = 0 \<or> 10 < stored_count e"
  shows "activeSensorCount (snd (boot_load e)) = 1
       \<and> \<not> sensorsConfigured (snd (boot_load e))
       \<and> (fst (boot_load e) = NoValidConfig \<or> fst (boot_load e) = InvalidCount)"
  using assms by (auto simp: boot_load_eq MAX_SENSOR_COUNT_def initial_globals_def)

text \<open>
  Claim C5, as amended. For every persisted record whose magic marker matches and whose
  active count is between 1 and 10 but whose first \<open>activeSensorCount\<close> slot addresses are
  not pairwise distinct, loading marks the device unconfigured and reports the duplicate
  warning, a condition distinct from the magic-mismatch report; the active count and the
  slot table keep the stored values.
\<close>

theorem C5_duplicate_record_keeps_count:
  assumes "stored_magic e = EEPROM_MAGIC"
    and "1 \<le> stored_count e" and "stored_count e \<le> 10"
    and "\<not> distinct (take (stored_count e) (stored_table e))"
  shows "fst (boot_load e) = DuplicateWarning
       \<and> fst (boot_load e) \<noteq> NoValidConfig
       \<and> \<not> sensorsConfigured (snd (boot_load e))
       \<and> activeSensorCount (snd (boot_load e)) = stored_count e
       \<and> sensorConfig (snd (boot_load e)) = stored_table e"
proof -
  let ?g1 = "initial_globals\<lparr>sensorConfig := stored_table e, activeSensorCount := stored_count e\<rparr>"
  have "activeSensorCount ?g1 \<le> length (sensorConfig ?g1)"
    using assms(3) by (simp add: length_stored_table MAX_SENSOR_COUNT_def)
  then have "\<not> validateUniqueConfig ?g1"
    using assms(4) by (simp add: validateUniqueConfig_distinct)
  then show ?thesis
    using assms(1,2,3) by (simp add: boot_load_eq MAX_SENSOR_COUNT_def)
qed

lemmas store_simps = boot_load_eq stored_magic_def stored_count_def stored_table_def
  EEPROM_commit_def EEPROM_put_def erased_eeprom_def u16_bytes_def bytes_u16_def
  EEPROM_MAGIC_def EEPROM_MAGIC_ADDR_def EEPROM_SENSOR_ADDR_def EEPROM_SENSOR_COUNT_ADDR_def
  MAX_SENSOR_COUNT_def validateUniqueConfig_def upt_conv_Cons

theorem C4_untrusted_record_fallback_witness:
  "stored_magic erased_eeprom \<noteq> EEPROM_MAGIC
   \<and> activeSensorCount (snd (boot_load erased_eeprom)) = 1
   \<and> \<not> sensorsConfigured (snd (boot_load erased_eeprom))
   \<and> (fst (boot_load erased_eeprom) = NoValidConfig \<or> fst (boot_load erased_eeprom) = InvalidCount)"
proof -
  have h: "stored_magic erased_eeprom \<noteq> EEPROM_MAGIC \<or> stored_count erased_eeprom = 0
      \<or> 10 < stored_count erased_eeprom"
    by (simp add: stored_magic_def erased_eeprom_def bytes_u16_def EEPROM_MAGIC_def)
  have m: "stored_magic erased_eeprom \<noteq> EEPROM_MAGIC"
    by (simp add: stored_magic_def erased_eeprom_def bytes_u16_def EEPROM_MAGIC_def)
  show ?thesis
    using m C4_untrusted_record_fallback [OF h] by simp
qed

lemma zero_count_record_fallback:
  "stored_magic zero_count_record = EEPROM_MAGIC \<and> stored_count zero_count_record = 0
   \<and> fst (boot_load zero_count_record) = InvalidCount
   \<and> activeSensorCount (snd (boot_load zero_count_record)) = 1
   \<and> \<not> sensorsConfigured (snd (boot_load zero_count_record))"
  by (simp add: store_simps zero_count_record_def)

text \<open>
  The claim as stated asks for the safe default after a duplicate record. A record with
  the magic marker, count 2 and two equal rows loads with active count 2, not 1.
\<close>

theorem C5_duplicate_record_not_default:
  "stored_magic duplicate_record = EEPROM_MAGIC
   \<and> stored_count duplicate_record = 2
   \<and> stored_table duplicate_record ! 0 = stored_table duplicate_record ! 1
   \<and> fst (boot_load duplicate_record) = DuplicateWarning
   \<and> activeSensorCount (snd (boot_load duplicate_record)) = 2
   \<and> activeSensorCount (snd (boot_load duplicate_record)) \<noteq> 1"
  by (simp add: store_simps duplicate_record_def)

theorem C5_duplicate_record_keeps_count_witness:
  "stored_magic duplicate_record = EEPROM_MAGIC
   \<and> 1 \<le> stored_count duplicate_record \<and> stored_count duplicate_record \<le> 10
   \<and> \<not> distinct (take (stored_count duplicate_record) (stored_table duplicate_record))
   \<and> fst (boot_load duplicate_record) = DuplicateWarning
   \<and> fst (boot_load duplicate_record) \<noteq> NoValidConfig
   \<and> \<not> sensorsConfigured (snd (boot_load duplicate_record))
   \<and> activeSensorCount (snd (boot_load duplicate_record)) = stored_count duplicate_record
   \<and> sensorConfig (snd (boot_load duplicate_record)) = stored_table duplicate_record"
proof -
  have m: "stored_magic duplicate_record = EEPROM_MAGIC"
    by (simp add: store_simps duplicate_record_def)
  have c: "stored_count duplicate_record = 2"
    by (simp add: store_simps duplicate_record_def)
  have d: "\<not> distinct (take (stored_count duplicate_record) (stored_table duplicate_record))"
    unfolding c by (simp add: store_simps duplicate_record_def)
  have lo: "1 \<le> stored_count duplicate_record" and hi: "stored_count duplicate_record \<le> 10"
    by (simp_all add: c)
  show ?thesis
    using m lo hi d C5_duplicate_record_keeps_count [OF m lo hi d] by simp
qed

theorem C3_persistence_round_trip_witness:
  "1 \<le> activeSensorCount two_probe_config \<and> activeSensorCount two_probe_config \<le> 10
   \<and> wf_config two_probe_config
   \<and> distinct (take (activeSensorCount two_probe_config) (sensorConfig two_probe_config))
   \<and> loadSensorConfig (EEPROM_begin (saveSensorConfig two_probe_config erased_eeprom)) initial_globals
       = (ConfigValidated,
          initial_globals\<lparr>sensorConfig := sensorConfig two_probe_config,
                           activeSensorCount := activeSensorCount two_probe_config,
                           sensorsConfigured := True\<rparr>)"
proof -
  have lo: "1 \<le> activeSensorCount two_probe_config"
    and hi: "activeSensorCount two_probe_config \<le> 10"
    by (simp_all add: two_probe_config_def)
  have wf: "wf_config two_probe_config"
    by (simp add: wf_config_def two_probe_config_def MAX_SENSOR_COUNT_def probe_A_def probe_B_def
        list_all_iff)
  have d: "distinct (take (activeSensorCount two_probe_config) (sensorConfig two_probe_config))"
    by (simp add: two_probe_config_def probe_A_def probe_B_def)
  show ?thesis
    using lo hi wf d C3_persistence_round_trip [OF lo hi wf d] by simp
qed

section \<open>\<^verbatim>\<open>findSensorByTouch\<close>: lemmas\<close>

lemma scan_touch_Touched:
  "scan_touch w t as bs [m..<n] = Touched i c \<Longrightarrow>
   m \<le> i \<and> i < n \<and> i < length as \<and> i < length bs \<and> deviates w t as bs i
     \<and> (\<forall>j. m \<le> j \<and> j < i \<longrightarrow> \<not> deviates w t as bs j) \<and> c = tempC w t (as ! i)"
proof (induction "n - m" arbitrary: m)
  case 0
  then show ?case by simp
next
  case (Suc d)
  then have mn: "m < n" and d: "d = n - Suc m" by simp_all
  have up: "[m..<n] = m # [Suc m..<n]" using mn by (simp add: upt_conv_Cons)
  show ?case
  proof (cases "m < length as \<and> m < length bs \<and> \<not> deviates w t as bs m")
    case True
    then have "scan_touch w t as bs [Suc m..<n] = Touched i c"
      using Suc.prems by (simp add: up deviates_def Let_def)
    from Suc.hyps(1) [OF d this]
    have ih: "Suc m \<le> i" "i < n" "i < length as" "i < length bs" "deviates w t as bs i"
      "\<forall>j. Suc m \<le> j \<and> j < i \<longrightarrow> \<not> deviates w t as bs j" "c = tempC w t (as ! i)"
      by simp_all
    have "\<not> deviates w t as bs j" if "m \<le> j \<and> j < i" for j
    proof (cases "j = m")
      case True
      with \<open>m < length as \<and> m < length bs \<and> \<not> deviates w t as bs m\<close> show ?thesis by simp
    next
      case False
      with that have "Suc m \<le> j \<and> j < i" by simp
      with ih(6) show ?thesis by blast
    qed
    with ih show ?thesis by simp
  next
    case False
    then show ?thesis
      using Suc.prems mn by (auto simp: up deviates_def Let_def split: if_splits)
  qed
qed

lemma scan_touch_Untouched:
  "scan_touch w t as bs [m..<n] = Untouched \<Longrightarrow>
   (\<forall>j. m \<le> j \<and> j < n \<longrightarrow> \<not> deviates w t as bs j)"
proof (induction "n - m" arbitrary: m)
  case 0
  then show ?case by auto
next
  case (Suc d)
  then have mn: "m < n" and d: "d = n - Suc m" by simp_all
  have up: "[m..<n] = m # [Suc m..<n]" using mn by (simp add: upt_conv_Cons)
  from Suc.prems have here: "\<not> deviates w t as bs m"
    and rest: "scan_touch w t as bs [Suc m..<n] = Untouched"
    by (auto simp: up deviates_def Let_def split: if_splits)
  have "\<not> deviates w t as bs j" if "m \<le> j \<and> j < n" for j
  proof (cases "j = m")
    case True
    with here show ?thesis by simp
  next
    case False
    with that have "Suc m \<le> j \<and> j < n" by simp
    with Suc.hyps(1) [OF d rest] show ?thesis by blast
  qed
  then show ?case by blast
qed


lemma scan_touch_quiet:
  "\<forall>j. m \<le> j \<and> j < n \<longrightarrow> \<not> deviates w t as bs j \<Longrightarrow> n \<le> length as \<Longrightarrow> n \<le> length bs \<Longrightarrow>
   scan_touch w t as bs [m..<n] = Untouched"
proof (induction "n - m" arbitrary: m)
  case 0
  then show ?case by simp
next
  case (Suc d)
  then have mn: "m < n" and d: "d = n - Suc m" by simp_all
  have up: "[m..<n] = m # [Suc m..<n]" using mn by (simp add: upt_conv_Cons)
  have "scan_touch w t as bs [Suc m..<n] = Untouched"
    using Suc.prems by (intro Suc.hyps(1) [OF d]) auto
  moreover have "\<not> deviates w t as bs m" using Suc.prems(1) mn by simp
  ultimately show ?case
    using mn Suc.prems(2,3) by (simp add: up Let_def deviates_def)
qed

lemma pass_time_Suc:
  "pass_time w now (Suc k) = pass_time w (now + convMs w + 500) k"
  by (simp add: pass_time_def)

lemma pass_time_0: "pass_time w now 0 = now + convMs w"
  by (simp add: pass_time_def)

text \<open>
  A returned index: the pass that produced it started within the budget, the candidate is
  the first of that pass beyond the threshold, and no candidate was beyond it in any
  earlier pass.
\<close>

lemma touch_loop_found:
  "touch_loop w as bs n start now = Some (int i, bs', t') \<Longrightarrow>
   \<exists>k. t' = pass_time w now k
       \<and> now + k * (convMs w + 500) - start < 30000
       \<and> i < n \<and> i < length as \<and> i < length bs
       \<and> deviates w t' as bs i
       \<and> (\<forall>j<i. \<not> deviates w t' as bs j)
       \<and> (\<forall>k'<k. \<forall>j<n. \<not> deviates w (pass_time w now k') as bs j)
       \<and> bs' = bs[i := tempC w t' (as ! i)]"
proof (induction w as bs n start now rule: touch_loop.induct)
  case (1 w as bs n start now)
  from "1.prems" have budget: "now - start < 30000"
    by (subst (asm) touch_loop.simps) (auto split: if_splits)
  show ?case
  proof (cases "scan_touch w (now + convMs w) as bs [0..<n]")
    case (Touched i0 c)
    with "1.prems" budget have r: "i0 = i" "bs' = bs[i0 := c]" "t' = now + convMs w"
      by (subst (asm) touch_loop.simps, simp)+
    from scan_touch_Touched [OF Touched] r budget show ?thesis
      by (intro exI [of _ 0]) (simp add: pass_time_0)
  next
    case Untouched
    with "1.prems" budget
    have rec: "touch_loop w as bs n start (now + convMs w + 500) = Some (int i, bs', t')"
      by (subst (asm) touch_loop.simps) simp
    from "1.IH" [OF budget Untouched rec] obtain k where k:
      "t' = pass_time w (now + convMs w + 500) k"
      "now + convMs w + 500 + k * (convMs w + 500) - start < 30000"
      "i < n" "i < length as" "i < length bs"
      "deviates w t' as bs i" "\<forall>j<i. \<not> deviates w t' as bs j"
      "\<forall>k'<k. \<forall>j<n. \<not> deviates w (pass_time w (now + convMs w + 500) k') as bs j"
      "bs' = bs[i := tempC w t' (as ! i)]"
      by blast
    have earlier: "\<forall>k'<Suc k. \<forall>j<n. \<not> deviates w (pass_time w now k') as bs j"
    proof (intro allI impI)
      fix k' j
      assume k': "k' < Suc k" and j: "j < n"
      show "\<not> deviates w (pass_time w now k') as bs j"
      proof (cases k')
        case 0
        with scan_touch_Untouched [OF Untouched] j show ?thesis
          by (simp add: pass_time_0)
      next
        case (Suc k'')
        with k' k(8) j show ?thesis by (simp add: pass_time_Suc)
      qed
    qed
    have "now + Suc k * (convMs w + 500) - start < 30000"
      using k(2) by (simp add: algebra_simps)
    with k earlier show ?thesis
      by (intro exI [of _ "Suc k"]) (simp add: pass_time_Suc)
  next
    case OutOfBounds
    with "1.prems" budget show ?thesis
      by (subst (asm) touch_loop.simps) simp
  qed
qed

text \<open>No deviation in any pass that starts within the budget: the loop times out.\<close>

lemma touch_loop_timeout:
  "\<forall>k. now + k * (convMs w + 500) - start < 30000 \<longrightarrow>
         (\<forall>j<n. \<not> deviates w (pass_time w now k) as bs j) \<Longrightarrow>
   n \<le> length as \<Longrightarrow> n \<le> length bs \<Longrightarrow>
   \<exists>t'. touch_loop w as bs n start now = Some (- 1, bs, t') \<and> 30000 \<le> t' - start"
proof (induction w as bs n start now rule: touch_loop.induct)
  case (1 w as bs n start now)
  show ?case
  proof (cases "now - start < 30000")
    case False
    then show ?thesis by (subst touch_loop.simps) simp
  next
    case True
    have "\<forall>j<n. \<not> deviates w (pass_time w now 0) as bs j"
      using "1.prems"(1) [rule_format, of 0] True by simp
    then have quiet: "scan_touch w (now + convMs w) as bs [0..<n] = Untouched"
      using "1.prems"(2,3) by (intro scan_touch_quiet) (simp_all add: pass_time_0)
    have later: "\<forall>k. now + convMs w + 500 + k * (convMs w + 500) - start < 30000 \<longrightarrow>
                   (\<forall>j<n. \<not> deviates w (pass_time w (now + convMs w + 500) k) as bs j)"
    proof (intro allI impI)
      fix k j
      assume "now + convMs w + 500 + k * (convMs w + 500) - start < 30000" and "j < n"
      then show "\<not> deviates w (pass_time w (now + convMs w + 500) k) as bs j"
        using "1.prems"(1) [rule_format, of "Suc k" j] by (simp add: pass_time_Suc algebra_simps)
    qed
    from "1.IH" [OF True quiet later "1.prems"(2,3)] True quiet show ?thesis
      by (subst touch_loop.simps) simp
  qed
qed


section \<open>The setup loops: lemmas\<close>

lemma isDuplicateSensor_iff:
  "isDuplicateSensor g a pos \<longleftrightarrow>
     (\<exists>k. k < pos \<and> k < activeSensorCount g \<and> sensorConfig g ! k = a)"
  by (auto simp: isDuplicateSensor_def list_ex_iff)

lemma touch_candidate_cases:
  "touch_candidate w as pos t i s = (found, s') \<Longrightarrow>
   (\<not> found \<longrightarrow> glob s' = glob s)
   \<and> (found \<longrightarrow> \<not> isDuplicateSensor (glob s) (as ! i) pos
                  \<and> glob s' = assign_slot (glob s) pos (as ! i))"
  by (auto simp: touch_candidate_def Let_def assign_slot_def split: if_splits)

lemma scan_candidates_cases:
  "scan_candidates w as pos t is s = (found, s') \<Longrightarrow>
   (\<not> found \<longrightarrow> glob s' = glob s)
   \<and> (found \<longrightarrow> (\<exists>i\<in>set is. \<not> isDuplicateSensor (glob s) (as ! i) pos
                              \<and> glob s' = assign_slot (glob s) pos (as ! i)))"
proof (induction "is" arbitrary: s)
  case Nil
  then show ?case by simp
next
  case (Cons i "is")
  obtain f1 s1 where step: "touch_candidate w as pos t i s = (f1, s1)"
    by (cases "touch_candidate w as pos t i s")
  note here = touch_candidate_cases [OF step]
  show ?case
  proof (cases f1)
    case True
    with Cons.prems step here show ?thesis by auto
  next
    case False
    with Cons.prems step have "scan_candidates w as pos t is s1 = (found, s')" by simp
    from Cons.IH [OF this] here False show ?thesis by auto
  qed
qed

lemma wait_for_touch_cases:
  assumes "wait_for_touch w as pos s = Some y"
  shows "(fst y \<noteq> SensorAssigned \<longrightarrow> glob (snd y) = glob s)
       \<and> (fst y = SensorAssigned \<longrightarrow>
            (\<exists>i<length as. \<not> isDuplicateSensor (glob s) (as ! i) pos
                          \<and> glob (snd y) = assign_slot (glob s) pos (as ! i)))"
proof (rule wait_for_touch.raw_induct [OF _ assms], goal_cases)
  case (1 wait w as pos s y)
  note IH = "1"(1) and body = "1"(2)
  show ?case
  proof (cases "clock s - waitStart s < 60000")
    case False
    with body show ?thesis by auto
  next
    case True
    obtain pressed t where btn:
      "(if buttonLow w (clock s) then hold_button w (clock s) (clock s) else (False, clock s))
         = (pressed, t)"
      by (cases "if buttonLow w (clock s) then hold_button w (clock s) (clock s)
                 else (False, clock s)")
    show ?thesis
    proof (cases pressed)
      case True
      with body \<open>clock s - waitStart s < 60000\<close> btn show ?thesis by auto
    next
      case False
      obtain found s1 where sc:
        "scan_candidates w as pos (t + convMs w) [0..<length as] (s\<lparr>clock := t + convMs w\<rparr>)
           = (found, s1)"
        by (cases "scan_candidates w as pos (t + convMs w) [0..<length as]
                     (s\<lparr>clock := t + convMs w\<rparr>)")
      note eff = scan_candidates_cases [OF sc]
      show ?thesis
      proof (cases found)
        case True
        with body \<open>clock s - waitStart s < 60000\<close> btn False sc
        have y: "y = (SensorAssigned, s1)" by simp
        with eff True show ?thesis by auto
      next
        case nf: False
        with body \<open>clock s - waitStart s < 60000\<close> btn False sc
        have "wait w as pos (s1\<lparr>clock := clock s1 + 500\<rparr>) = Some y" by simp
        from IH [OF this] eff nf show ?thesis by simp
      qed
    qed
  qed
qed


text \<open>
  An assignment at position \<open>pos\<close> raises the count from \<open>pos\<close> to \<open>pos + 1\<close>, the
  position awaited next; any other way out of the wait leaves the globals alone.
\<close>

lemma next_position_count:
  assumes "wait_for_touch w as pos s = Some (event, s')"
    and "activeSensorCount (glob s) = pos" and "pos < MAX_SENSOR_COUNT"
  shows "activeSensorCount (glob s') = (if event = SensorAssigned then pos + 1 else pos)"
proof -
  have small: "pos + 1 < 256" using assms(3) by (simp add: MAX_SENSOR_COUNT_def)
  note eff = wait_for_touch_cases [OF assms(1)]
  show ?thesis
  proof (cases "event = SensorAssigned")
    case True
    with eff obtain i where "glob s' = assign_slot (glob s) pos (as ! i)" by auto
    with True assms(2) small show ?thesis by (simp add: assign_slot_def)
  next
    case False
    with eff assms(2) show ?thesis by simp
  qed
qed

lemma assign_positions_inv:
  "assign_positions w as pos s = Some s' \<Longrightarrow> 1 \<le> pos \<Longrightarrow> pos \<le> MAX_SENSOR_COUNT \<Longrightarrow>
   activeSensorCount (glob s) = pos \<Longrightarrow>
   pos \<le> activeSensorCount (glob s') \<and> activeSensorCount (glob s') \<le> MAX_SENSOR_COUNT
     \<and> length (sensorConfig (glob s')) = length (sensorConfig (glob s))
     \<and> sensorConfig (glob s') ! 0 = sensorConfig (glob s) ! 0"
proof (induction w as pos s rule: assign_positions.induct)
  case (1 w as pos s)
  let ?s0 = "s\<lparr>clock := clock s + pos * 200 + 500, waitStart := clock s + pos * 200 + 500\<rparr>"
  show ?case
  proof (cases "pos < MAX_SENSOR_COUNT")
    case False
    with "1.prems" show ?thesis
      by (subst (asm) assign_positions.simps) simp
  next
    case True
    with "1.prems"(1) obtain ev s1 where w1: "wait_for_touch w as pos ?s0 = Some (ev, s1)"
      and rest: "(if ev = SensorAssigned then assign_positions w as (pos + 1) s1 else Some s1)
                   = Some s'"
      by (subst (asm) assign_positions.simps) (auto split: option.splits)
    note eff = wait_for_touch_cases [OF w1]
    show ?thesis
    proof (cases "ev = SensorAssigned")
      case False
      with rest eff "1.prems" show ?thesis by simp
    next
      case assigned: True
      with eff obtain i where g1: "glob s1 = assign_slot (glob s) pos (as ! i)" by auto
      have small: "pos + 1 < 256" using True by (simp add: MAX_SENSOR_COUNT_def)
      have cnt: "activeSensorCount (glob s1) = pos + 1"
        using "1.prems"(4) small by (simp add: g1 assign_slot_def)
      from assigned rest have rec: "assign_positions w as (pos + 1) s1 = Some s'" by simp
      have "pos + 1 \<le> activeSensorCount (glob s') \<and> activeSensorCount (glob s') \<le> MAX_SENSOR_COUNT
              \<and> length (sensorConfig (glob s')) = length (sensorConfig (glob s1))
              \<and> sensorConfig (glob s') ! 0 = sensorConfig (glob s1) ! 0"
        using True cnt by (intro "1.IH" [OF True w1 refl assigned rec]) simp_all
      moreover have "length (sensorConfig (glob s1)) = length (sensorConfig (glob s))"
        and "sensorConfig (glob s1) ! 0 = sensorConfig (glob s) ! 0"
        using "1.prems"(2) by (simp_all add: g1 assign_slot_def)
      ultimately show ?thesis by simp
    qed
  qed
qed

text \<open>
  The rejection of duplicates keeps the assigned slots pairwise distinct, so the final
  validation of lines 526 to 531 never fails.
\<close>

lemma assign_slot_distinct:
  assumes "\<not> isDuplicateSensor g a pos" and "activeSensorCount g = pos"
    and "pos < length (sensorConfig g)" and "distinct (take pos (sensorConfig g))"
  shows "distinct (take (Suc pos) (sensorConfig (assign_slot g pos a)))"
proof -
  have fresh: "a \<notin> set (take pos (sensorConfig g))"
  proof
    assume "a \<in> set (take pos (sensorConfig g))"
    then obtain k where "k < pos" "take pos (sensorConfig g) ! k = a"
      by (auto simp: in_set_conv_nth)
    then have "k < pos \<and> k < activeSensorCount g \<and> sensorConfig g ! k = a"
      using assms(2) by simp
    with assms(1) show False by (auto simp: isDuplicateSensor_iff)
  qed
  have "take (Suc pos) ((sensorConfig g)[pos := a]) = take pos (sensorConfig g) @ [a]"
    using assms(3) by (simp add: take_Suc_conv_app_nth)
  with fresh assms(4) show ?thesis by (simp add: assign_slot_def)
qed

lemma assign_positions_distinct:
  "assign_positions w as pos s = Some s' \<Longrightarrow> 1 \<le> pos \<Longrightarrow> pos \<le> MAX_SENSOR_COUNT \<Longrightarrow>
   activeSensorCount (glob s) = pos \<Longrightarrow> length (sensorConfig (glob s)) = MAX_SENSOR_COUNT \<Longrightarrow>
   distinct (take pos (sensorConfig (glob s))) \<Longrightarrow>
   distinct (take (activeSensorCount (glob s')) (sensorConfig (glob s')))"
proof (induction w as pos s rule: assign_positions.induct)
  case (1 w as pos s)
  let ?s0 = "s\<lparr>clock := clock s + pos * 200 + 500, waitStart := clock s + pos * 200 + 500\<rparr>"
  show ?case
  proof (cases "pos < MAX_SENSOR_COUNT")
    case False
    with "1.prems" show ?thesis
      by (subst (asm) assign_positions.simps) simp
  next
    case True
    with "1.prems"(1) obtain ev s1 where w1: "wait_for_touch w as pos ?s0 = Some (ev, s1)"
      and rest: "(if ev = SensorAssigned then assign_positions w as (pos + 1) s1 else Some s1)
                   = Some s'"
      by (subst (asm) assign_positions.simps) (auto split: option.splits)
    note eff = wait_for_touch_cases [OF w1]
    show ?thesis
    proof (cases "ev = SensorAssigned")
      case False
      with rest eff "1.prems" show ?thesis by simp
    next
      case assigned: True
      with eff obtain i where fresh: "\<not> isDuplicateSensor (glob s) (as ! i) pos"
        and g1: "glob s1 = assign_slot (glob s) pos (as ! i)" by auto
      have small: "pos + 1 < 256" using True by (simp add: MAX_SENSOR_COUNT_def)
      have cnt: "activeSensorCount (glob s1) = pos + 1"
        using "1.prems"(4) small by (simp add: g1 assign_slot_def)
      have len: "length (sensorConfig (glob s1)) = MAX_SENSOR_COUNT"
        using "1.prems"(5) by (simp add: g1 assign_slot_def)
      have dist: "distinct (take (pos + 1) (sensorConfig (glob s1)))"
        using assign_slot_distinct [OF fresh "1.prems"(4) _ "1.prems"(6)] True "1.prems"(5)
        by (simp add: g1)
      from assigned rest have rec: "assign_positions w as (pos + 1) s1 = Some s'" by simp
      from True show ?thesis
        by (intro "1.IH" [OF True w1 refl assigned rec _ _ cnt len dist]) simp_all
    qed
  qed
qed

lemma setup_never_detects_duplicates:
  assumes "length (sensorConfig g) = MAX_SENSOR_COUNT"
  shows "scanAndIdentifySensors w e g now \<noteq> Some (DuplicatesDetected, e', g', now')"
proof
  assume run: "scanAndIdentifySensors w e g now = Some (DuplicatesDetected, e', g', now')"
  then obtain r bs1 t1 s3 where
    pos: "assign_positions w (take 16 (devices w)) 1
               \<lparr>glob = g\<lparr>activeSensorCount := 0,
                          sensorConfig := (sensorConfig g)[0 := take 16 (devices w) ! nat r],
                          activeSensorCount := 1\<rparr>,
                baselines = bs1, clock = t1 + 1800, waitStart = 0\<rparr> = Some s3"
    and bad: "\<not> validateUniqueConfig (glob s3)"
    by (auto simp: scanAndIdentifySensors_def Let_def split: if_splits option.splits prod.splits)
  have one: "distinct (take 1 ((sensorConfig g)[0 := take 16 (devices w) ! nat r]))"
    using assms by (cases "sensorConfig g") (simp_all add: MAX_SENSOR_COUNT_def)
  from assign_positions_distinct [OF pos] assms one
  have d: "distinct (take (activeSensorCount (glob s3)) (sensorConfig (glob s3)))"
    by (simp add: MAX_SENSOR_COUNT_def)
  from assign_positions_inv [OF pos] assms
  have "activeSensorCount (glob s3) \<le> length (sensorConfig (glob s3))"
    by (simp add: MAX_SENSOR_COUNT_def)
  with d bad show False by (simp add: validateUniqueConfig_distinct)
qed

lemma saveSensorConfig_cong:
  "sensorConfig g = sensorConfig g' \<Longrightarrow> activeSensorCount g = activeSensorCount g' \<Longrightarrow>
   saveSensorConfig g e = saveSensorConfig g' e"
  by (simp add: saveSensorConfig_def)

lemma findSensorByTouch_index:
  "findSensorByTouch w as bs n now = Some (r, bs', t) \<Longrightarrow> 0 \<le> r \<Longrightarrow>
   nat r < n \<and> nat r < length as"
proof -
  assume a: "findSensorByTouch w as bs n now = Some (r, bs', t)" and "0 \<le> r"
  then have "touch_loop w as bs n now now = Some (int (nat r), bs', t)"
    by (simp add: findSensorByTouch_def)
  from touch_loop_found [OF this] show ?thesis by blast
qed

section \<open>Claims about identification and setup\<close>

lemma replicate_10: "replicate 10 x = [x, x, x, x, x, x, x, x, x, x]"
  by (simp add: eval_nat_numeral)

lemmas probe_simps = probe_A_def probe_B_def probe_C_def
lemmas setup_simps = scanAndIdentifySensors_def findSensorByTouch_def touch_loop.simps
  assign_positions.simps wait_for_touch.simps touch_candidate_def isDuplicateSensor_def
  validateUniqueConfig_def Let_def upt_conv_Cons TEMP_CHANGE_THRESHOLD_def MAX_SENSOR_COUNT_def






text \<open>
  What each exit of \<^verbatim>\<open>scanAndIdentifySensors\<close> leaves behind. With no device on the bus
  nothing changes. After the ambient timeout the store is untouched, but the active count
  stays at the 0 written in line 361.
\<close>

lemma no_devices_abort:
  "devices w = [] \<Longrightarrow> scanAndIdentifySensors w e g now = Some (NoSensorsFound, e, g, now + 5000)"
  by (simp add: scanAndIdentifySensors_def)

lemma NoSensorsFound_unchanged:
  "scanAndIdentifySensors w e g now = Some (NoSensorsFound, e', g', now') \<Longrightarrow>
   devices w = [] \<and> e' = e \<and> g' = g"
  by (auto simp: scanAndIdentifySensors_def Let_def split: if_splits option.splits prod.splits)

lemma AmbientRequired_effect:
  "scanAndIdentifySensors w e g now = Some (AmbientRequired, e', g', now') \<Longrightarrow>
   devices w \<noteq> [] \<and> e' = e \<and> g' = g\<lparr>activeSensorCount := 0\<rparr>"
  by (auto simp: scanAndIdentifySensors_def Let_def split: if_splits option.splits prod.splits)

text \<open>
  The ambient timeout does occur: with at most 16 probes on the bus, none of which moves
  away from its baseline in a pass started within the budget, the attempt ends at line
  395.
\<close>

lemma ambient_timeout_aborts:
  assumes dev: "devices w \<noteq> []" and cap: "length (devices w) \<le> 16"
    and quiet: "\<forall>k. k * (convMs w + 500) < 30000 \<longrightarrow>
                  (\<forall>j<length (devices w).
                     \<not> deviates w (pass_time w (now + convMs w + 1650) k) (devices w)
                         (map (tempC w (now + convMs w)) (devices w)) j)"
  shows "\<exists>t. scanAndIdentifySensors w e g now
               = Some (AmbientRequired, e, g\<lparr>activeSensorCount := 0\<rparr>, t)"
proof -
  let ?bs = "map (tempC w (now + convMs w)) (devices w)"
  have all: "take 16 (devices w) = devices w" using cap by simp
  have "\<forall>k. now + convMs w + 1650 + k * (convMs w + 500) - (now + convMs w + 1650) < 30000 \<longrightarrow>
          (\<forall>j<length (devices w).
             \<not> deviates w (pass_time w (now + convMs w + 1650) k) (devices w) ?bs j)"
    using quiet by simp
  from touch_loop_timeout [OF this] obtain t' where
    "touch_loop w (devices w) ?bs (length (devices w)) (now + convMs w + 1650)
       (now + convMs w + 1650) = Some (- 1, ?bs, t')"
    by auto
  then have "findSensorByTouch w (devices w) ?bs (length (devices w)) (now + convMs w + 1650)
               = Some (- 1, ?bs, t')"
    by (simp add: findSensorByTouch_def)
  then have "scanAndIdentifySensors w e g now
               = Some (AmbientRequired, e, g\<lparr>activeSensorCount := 0\<rparr>, t' + 5000)"
    using dev by (simp add: scanAndIdentifySensors_def Let_def all)
  then show ?thesis by blast
qed

lemma SetupComplete_effect:
  assumes "scanAndIdentifySensors w e g now = Some (SetupComplete, e', g', now')"
  shows "\<exists>r bs1 t1 s3.
           findSensorByTouch w (take 16 (devices w)) (map (tempC w (now + convMs w)) (take 16 (devices w)))
               (length (devices w)) (now + convMs w + 1650) = Some (r, bs1, t1)
         \<and> 0 \<le> r
         \<and> assign_positions w (take 16 (devices w)) 1
               \<lparr>glob = g\<lparr>activeSensorCount := 0,
                          sensorConfig := (sensorConfig g)[0 := take 16 (devices w) ! nat r],
                          activeSensorCount := 1\<rparr>,
                baselines = bs1, clock = t1 + 1800, waitStart = 0\<rparr> = Some s3
         \<and> validateUniqueConfig (glob s3)
         \<and> e' = saveSensorConfig (glob s3) e
         \<and> g' = (glob s3)\<lparr>sensorsConfigured := True\<rparr>"
  using assms
  by (auto simp: scanAndIdentifySensors_def Let_def split: if_splits option.splits prod.splits)

text \<open>
  Claim C8. Every configuration that the setup sequence saves has an active count between
  1 and 10, pairwise distinct addresses in the slots below the active count, and an
  assigned ambient slot: slot 0 holds the address of a probe on the bus. The store then
  holds that configuration and the device is marked configured.
\<close>

theorem C8_saved_configuration_valid:
  assumes "scanAndIdentifySensors w e g now = Some (SetupComplete, e', g', now')"
    and "length (sensorConfig g) = MAX_SENSOR_COUNT"
  shows "1 \<le> activeSensorCount g' \<and> activeSensorCount g' \<le> 10
       \<and> distinct (take (activeSensorCount g') (sensorConfig g'))
       \<and> sensorConfig g' ! 0 \<in> set (devices w)
       \<and> e' = saveSensorConfig g' e
       \<and> sensorsConfigured g'"
proof -
  let ?as = "take 16 (devices w)"
  from SetupComplete_effect [OF assms(1)] obtain r bs1 t1 s3 where
    find: "findSensorByTouch w ?as (map (tempC w (now + convMs w)) ?as)
             (length (devices w)) (now + convMs w + 1650) = Some (r, bs1, t1)"
    and r: "0 \<le> r"
    and pos: "assign_positions w ?as 1
               \<lparr>glob = g\<lparr>activeSensorCount := 0,
                          sensorConfig := (sensorConfig g)[0 := ?as ! nat r],
                          activeSensorCount := 1\<rparr>,
                baselines = bs1, clock = t1 + 1800, waitStart = 0\<rparr> = Some s3"
    and valid: "validateUniqueConfig (glob s3)"
    and e': "e' = saveSensorConfig (glob s3) e"
    and g': "g' = (glob s3)\<lparr>sensorsConfigured := True\<rparr>"
    by blast
  from findSensorByTouch_index [OF find r] have idx: "nat r < length ?as" by simp
  then have amb: "?as ! nat r \<in> set (devices w)"
    by (metis in_set_takeD nth_mem)
  from assign_positions_inv [OF pos]
  have cnt: "1 \<le> activeSensorCount (glob s3)" "activeSensorCount (glob s3) \<le> MAX_SENSOR_COUNT"
    and len: "length (sensorConfig (glob s3)) = length (sensorConfig g)"
    and slot0: "sensorConfig (glob s3) ! 0 = (sensorConfig g)[0 := ?as ! nat r] ! 0"
    by (simp_all add: MAX_SENSOR_COUNT_def)
  have "activeSensorCount (glob s3) \<le> length (sensorConfig (glob s3))"
    using cnt(2) len assms(2) by simp
  with valid have "distinct (take (activeSensorCount (glob s3)) (sensorConfig (glob s3)))"
    by (simp add: validateUniqueConfig_distinct)
  moreover have "sensorConfig (glob s3) ! 0 = ?as ! nat r"
    using slot0 assms(2) by (simp add: MAX_SENSOR_COUNT_def)
  moreover have "saveSensorConfig (glob s3) e = saveSensorConfig g' e"
    by (rule saveSensorConfig_cong) (simp_all add: g')
  ultimately show ?thesis
    using cnt amb e' by (simp add: g' MAX_SENSOR_COUNT_def)
qed

text \<open>
  A complete session at the bench: the second probe becomes ambient, the third takes
  position 1, a second touch of the third probe is refused while position 2 is awaited,
  and the window of position 2 runs out.
\<close>

lemma bench_run:
  "scanAndIdentifySensors bench_world erased_eeprom initial_globals 0
     = Some (SetupComplete, saveSensorConfig bench_result erased_eeprom, bench_result, 77150)"
  by (simp add: setup_simps bench_world_def probe_simps initial_globals_def saveSensorConfig_def
      bench_result_def)

theorem C8_saved_configuration_valid_witness:
  "scanAndIdentifySensors bench_world erased_eeprom initial_globals 0
     = Some (SetupComplete, saveSensorConfig bench_result erased_eeprom, bench_result, 77150)
   \<and> length (sensorConfig initial_globals) = MAX_SENSOR_COUNT
   \<and> 1 \<le> activeSensorCount bench_result \<and> activeSensorCount bench_result \<le> 10
   \<and> distinct (take (activeSensorCount bench_result) (sensorConfig bench_result))
   \<and> sensorConfig bench_result ! 0 \<in> set (devices bench_world)
   \<and> sensorsConfigured bench_result"
proof -
  have len: "length (sensorConfig initial_globals) = MAX_SENSOR_COUNT"
    by (simp add: initial_globals_def MAX_SENSOR_COUNT_def)
  show ?thesis
    using bench_run len C8_saved_configuration_valid [OF bench_run len] by simp
qed


lemma read_sensors_none: "activeSensorCount g = 0 \<Longrightarrow> read_sensors w t g = latestTemps g"
  by (simp add: read_sensors_def)

lemma quiet_run:
  "scanAndIdentifySensors quiet_world configured_store configured_device 0
     = Some (AmbientRequired, configured_store, configured_device\<lparr>activeSensorCount := 0\<rparr>, 37400)"
  by (simp add: setup_simps quiet_world_def probe_simps)

lemma encodePacket_zero_count:
  "encodePacket 1 0 [0, 0, 0, 0, 0, 0, 0, 0, 0, 0]
     = Some ''TX1:0.0,0.0,0.0,0.0,0.0,0.0,0.0,0.0,0.0,0.0,0.0''"
  by (simp add: encode_simps render_simps)

text \<open>
  Claim C10. When a setup attempt aborts after the enumeration succeeded but the ambient
  identification timed out, \<open>sensorsConfigured\<close> keeps the value it had before the
  attempt and the active count is 0; a device that was configured before therefore
  transmits again as soon as the interval has passed, with the packet encoded for an
  active count of 0 from the readings it last stored.
\<close>

theorem C10_abort_keeps_flag_resets_count:
  assumes "scanAndIdentifySensors w e g now = Some (AmbientRequired, e', g', now')"
  shows "devices w \<noteq> []
       \<and> sensorsConfigured g' = sensorsConfigured g
       \<and> activeSensorCount g' = 0
       \<and> (sensorsConfigured g \<longrightarrow>
            (\<forall>t. TRANSMIT_INTERVAL_MS \<le> t - lastTransmitTime g' \<longrightarrow>
                 (\<exists>g''. loop_transmit w g' t
                          = Some (encodePacket (transmitterID g) 0 (latestTemps g), g'')
                        \<and> activeSensorCount g'' = 0)))"
proof -
  from AmbientRequired_effect [OF assms]
  have dev: "devices w \<noteq> []" and g': "g' = g\<lparr>activeSensorCount := 0\<rparr>" by simp_all
  have "\<exists>g''. loop_transmit w g' t = Some (encodePacket (transmitterID g) 0 (latestTemps g), g'')
              \<and> activeSensorCount g'' = 0"
    if "sensorsConfigured g" and "TRANSMIT_INTERVAL_MS \<le> t - lastTransmitTime g'" for t
    using that by (simp add: loop_transmit_def readAndTransmitData_def read_sensors_none g' Let_def)
  with dev show ?thesis by (simp add: g')
qed

theorem C10_abort_keeps_flag_resets_count_witness:
  "scanAndIdentifySensors quiet_world configured_store configured_device 0
     = Some (AmbientRequired, configured_store, configured_device\<lparr>activeSensorCount := 0\<rparr>, 37400)
   \<and> sensorsConfigured configured_device
   \<and> TRANSMIT_INTERVAL_MS \<le> 67400 - lastTransmitTime (configured_device\<lparr>activeSensorCount := 0\<rparr>)
   \<and> sensorsConfigured (configured_device\<lparr>activeSensorCount := 0\<rparr>)
   \<and> activeSensorCount (configured_device\<lparr>activeSensorCount := 0\<rparr>) = 0
   \<and> (\<exists>g''. loop_transmit quiet_world (configured_device\<lparr>activeSensorCount := 0\<rparr>) 67400
              = Some (encodePacket (transmitterID configured_device) 0
                        (latestTemps configured_device), g'')
            \<and> activeSensorCount g'' = 0)"
proof -
  have cfg: "sensorsConfigured configured_device"
    by (simp add: configured_device_def)
  have due: "TRANSMIT_INTERVAL_MS
               \<le> 67400 - lastTransmitTime (configured_device\<lparr>activeSensorCount := 0\<rparr>)"
    by (simp add: configured_device_def two_probe_config_def initial_globals_def
        TRANSMIT_INTERVAL_MS_def)
  from C10_abort_keeps_flag_resets_count [OF quiet_run] cfg due quiet_run
  show ?thesis by simp
qed

text \<open>
  Claim C9 says that an aborted attempt leaves the configuration as it was. For the abort
  without devices that is \<open>NoSensorsFound_unchanged\<close>, and neither abort writes to the
  store. After the ambient timeout, however, a device configured with two probes is left
  with an active count of 0, below the minimum of 1 that line 86 documents, while still
  marked configured; its next packet has eleven fields instead of ten.
\<close>

theorem C9_ambient_timeout_resets_count:
  "scanAndIdentifySensors quiet_world configured_store configured_device 0
     = Some (AmbientRequired, configured_store, configured_device\<lparr>activeSensorCount := 0\<rparr>, 37400)
   \<and> activeSensorCount configured_device = 2
   \<and> configured_device\<lparr>activeSensorCount := 0\<rparr> \<noteq> configured_device
   \<and> sensorsConfigured (configured_device\<lparr>activeSensorCount := 0\<rparr>)
   \<and> map_option fst
         (loop_transmit quiet_world (configured_device\<lparr>activeSensorCount := 0\<rparr>) 67400)
       = Some (Some ''TX1:0.0,0.0,0.0,0.0,0.0,0.0,0.0,0.0,0.0,0.0,0.0'')"
proof -
  have count: "activeSensorCount configured_device = 2"
    by (simp add: configured_device_def two_probe_config_def)
  have changed: "configured_device\<lparr>activeSensorCount := 0\<rparr> \<noteq> configured_device"
  proof
    assume "configured_device\<lparr>activeSensorCount := 0\<rparr> = configured_device"
    then have "activeSensorCount (configured_device\<lparr>activeSensorCount := 0\<rparr>)
                 = activeSensorCount configured_device"
      by (rule arg_cong)
    with count show False by simp
  qed
  have sent: "map_option fst
                (loop_transmit quiet_world (configured_device\<lparr>activeSensorCount := 0\<rparr>) 67400)
              = Some (Some ''TX1:0.0,0.0,0.0,0.0,0.0,0.0,0.0,0.0,0.0,0.0,0.0'')"
    using encodePacket_zero_count
    by (simp add: configured_device_def two_probe_config_def initial_globals_def replicate_10
        loop_transmit_def readAndTransmitData_def read_sensors_none TRANSMIT_INTERVAL_MS_def
        Let_def)
  show ?thesis
    using quiet_run count changed sent by (simp add: configured_device_def)
qed

end
